theory Spec2Isabelle
  imports Complex_Main
begin

section \<open>Covered-call backtest: a model of main.py\<close>

text \<open>
  The script main.py prices European calls with the Black-Scholes formula, derives a
  rolling volatility from a price series, runs a day-by-day covered-call simulation and
  reports return metrics. Each step of the script is a function here, the module-level
  variables of the script are the fields of a state record, and every exception the
  script can raise is a value of the type \<open>error\<close>.
\<close>

subsection \<open>numpy float64 values\<close>

text \<open>
  A numpy float64 is either a finite number or one of the special values +inf, -inf and
  nan. Finite numbers are modelled by exact reals (no rounding, no overflow); the special
  values are modelled as such, because numpy arithmetic returns them where Python's own
  float arithmetic would raise. A zero is the float +0.0: the script never produces -0.0
  in a denominator.
\<close>

datatype npfloat = Fin real | PInf | NInf | NaN

fun np_neg :: "npfloat \<Rightarrow> npfloat" where
  "np_neg (Fin x) = Fin (- x)"
| "np_neg PInf = NInf"
| "np_neg NInf = PInf"
| "np_neg NaN = NaN"

fun np_add :: "npfloat \<Rightarrow> npfloat \<Rightarrow> npfloat" where
  "np_add NaN _ = NaN"
| "np_add _ NaN = NaN"
| "np_add (Fin x) (Fin y) = Fin (x + y)"
| "np_add (Fin _) PInf = PInf"
| "np_add (Fin _) NInf = NInf"
| "np_add PInf NInf = NaN"
| "np_add NInf PInf = NaN"
| "np_add PInf _ = PInf"
| "np_add NInf _ = NInf"

definition np_sub :: "npfloat \<Rightarrow> npfloat \<Rightarrow> npfloat" where
  "np_sub a b = np_add a (np_neg b)"

fun np_mul :: "npfloat \<Rightarrow> npfloat \<Rightarrow> npfloat" where
  "np_mul NaN _ = NaN"
| "np_mul _ NaN = NaN"
| "np_mul (Fin x) (Fin y) = Fin (x * y)"
| "np_mul (Fin x) PInf = (if x = 0 then NaN else if 0 < x then PInf else NInf)"
| "np_mul (Fin x) NInf = (if x = 0 then NaN else if 0 < x then NInf else PInf)"
| "np_mul PInf (Fin y) = (if y = 0 then NaN else if 0 < y then PInf else NInf)"
| "np_mul NInf (Fin y) = (if y = 0 then NaN else if 0 < y then NInf else PInf)"
| "np_mul PInf PInf = PInf"
| "np_mul PInf NInf = NInf"
| "np_mul NInf PInf = NInf"
| "np_mul NInf NInf = PInf"

text \<open>
  numpy division: a finite number over zero is +inf or -inf by the sign of the numerator,
  zero over zero is nan, and nothing is raised.
\<close>

fun np_div :: "npfloat \<Rightarrow> npfloat \<Rightarrow> npfloat" where
  "np_div NaN _ = NaN"
| "np_div _ NaN = NaN"
| "np_div (Fin x) (Fin y) =
     (if y \<noteq> 0 then Fin (x / y) else if x = 0 then NaN else if 0 < x then PInf else NInf)"
| "np_div (Fin _) PInf = Fin 0"
| "np_div (Fin _) NInf = Fin 0"
| "np_div PInf (Fin y) = (if 0 \<le> y then PInf else NInf)"
| "np_div NInf (Fin y) = (if 0 \<le> y then NInf else PInf)"
| "np_div PInf _ = NaN"
| "np_div NInf _ = NaN"

fun np_log :: "npfloat \<Rightarrow> npfloat" where
  "np_log (Fin x) = (if 0 < x then Fin (ln x) else if x = 0 then NInf else NaN)"
| "np_log PInf = PInf"
| "np_log NInf = NaN"
| "np_log NaN = NaN"

fun np_sqrt :: "npfloat \<Rightarrow> npfloat" where
  "np_sqrt (Fin x) = (if 0 \<le> x then Fin (sqrt x) else NaN)"
| "np_sqrt PInf = PInf"
| "np_sqrt NInf = NaN"
| "np_sqrt NaN = NaN"

fun np_exp :: "npfloat \<Rightarrow> npfloat" where
  "np_exp (Fin x) = Fin (exp x)"
| "np_exp PInf = PInf"
| "np_exp NInf = Fin 0"
| "np_exp NaN = NaN"

text \<open>
  The standard normal cumulative distribution function (scipy.stats.norm.cdf), as the
  power series of 1/2 + erf (x / sqrt 2) / 2, and its values at the special floats.
\<close>

definition std_normal_cdf :: "real \<Rightarrow> real" where
  "std_normal_cdf x =
     1 / 2 + (1 / sqrt (2 * pi)) *
       (\<Sum>n. (- 1) ^ n * x ^ (2 * n + 1) / (fact n * 2 ^ n * real (2 * n + 1)))"

fun norm_cdf :: "npfloat \<Rightarrow> npfloat" where
  "norm_cdf (Fin x) = Fin (std_normal_cdf x)"
| "norm_cdf PInf = Fin 1"
| "norm_cdf NInf = Fin 0"
| "norm_cdf NaN = NaN"

subsection \<open>Step 1: the Black-Scholes function\<close>

text \<open>
  \<open>black_scholes_call(S, K, T, r, sigma)\<close>, lines 14 to 31. The arguments are finite
  floats; the operations are numpy's, so the function returns a value for every input.
\<close>

definition black_scholes_call :: "real \<Rightarrow> real \<Rightarrow> real \<Rightarrow> real \<Rightarrow> real \<Rightarrow> npfloat" where
  "black_scholes_call S strike T r sigma =
     (let d1 = np_div
                 (np_add (np_log (np_div (Fin S) (Fin strike)))
                         (np_mul (np_add (Fin r) (np_mul (Fin 0.5) (Fin (sigma ^ 2)))) (Fin T)))
                 (np_mul (Fin sigma) (np_sqrt (Fin T)));
          d2 = np_sub d1 (np_mul (Fin sigma) (np_sqrt (Fin T)));
          call_price = np_sub (np_mul (Fin S) (norm_cdf d1))
                              (np_mul (np_mul (Fin strike) (np_exp (np_mul (Fin (- r)) (Fin T))))
                                      (norm_cdf d2))
      in call_price)"

text \<open>The closed-form European call price, as the specification writes it.\<close>

definition spec_d1 :: "real \<Rightarrow> real \<Rightarrow> real \<Rightarrow> real \<Rightarrow> real \<Rightarrow> real" where
  "spec_d1 S strike T r sigma =
     (ln (S / strike) + (r + 0.5 * sigma\<^sup>2) * T) / (sigma * sqrt T)"

definition spec_d2 :: "real \<Rightarrow> real \<Rightarrow> real \<Rightarrow> real \<Rightarrow> real \<Rightarrow> real" where
  "spec_d2 S strike T r sigma = spec_d1 S strike T r sigma - sigma * sqrt T"

definition spec_premium :: "real \<Rightarrow> real \<Rightarrow> real \<Rightarrow> real \<Rightarrow> real \<Rightarrow> real" where
  "spec_premium S strike T r sigma =
     S * std_normal_cdf (spec_d1 S strike T r sigma)
       - strike * exp (- (r * T)) * std_normal_cdf (spec_d2 S strike T r sigma)"

subsection \<open>Calendar dates\<close>

text \<open>
  The index of the data frame holds pandas timestamps at midnight: calendar dates. A date
  is its year, month and day; dates compare as timestamps do, and adding
  \<open>pd.Timedelta(days=n)\<close> steps n calendar days forward.
\<close>

record date =
  year :: int
  month :: int
  day :: int

definition date_le :: "date \<Rightarrow> date \<Rightarrow> bool" where
  "date_le a b =
     (year a < year b \<or>
      (year a = year b \<and> (month a < month b \<or> (month a = month b \<and> day a \<le> day b))))"

definition leap_year :: "int \<Rightarrow> bool" where
  "leap_year y = (y mod 4 = 0 \<and> (y mod 100 \<noteq> 0 \<or> y mod 400 = 0))"

definition days_in_month :: "int \<Rightarrow> int \<Rightarrow> int" where
  "days_in_month y m =
     (if m = 2 then (if leap_year y then 29 else 28)
      else if m = 4 \<or> m = 6 \<or> m = 9 \<or> m = 11 then 30 else 31)"

definition next_day :: "date \<Rightarrow> date" where
  "next_day d =
     (if day d < days_in_month (year d) (month d) then d\<lparr>day := day d + 1\<rparr>
      else if month d < 12 then d\<lparr>month := month d + 1, day := 1\<rparr>
      else \<lparr>year = year d + 1, month = 1, day = 1\<rparr>)"

primrec add_days :: "nat \<Rightarrow> date \<Rightarrow> date" where
  "add_days 0 d = d"
| "add_days (Suc n) d = add_days n (next_day d)"

text \<open>
  The number of a date, counted in days from 1970-01-01, for the \<open>.days\<close> of a
  difference of two timestamps.
\<close>

definition day_number :: "date \<Rightarrow> int" where
  "day_number d =
     (let y = (if month d \<le> 2 then year d - 1 else year d);
          era = y div 400;
          yoe = y - era * 400;
          mp = (if 2 < month d then month d - 3 else month d + 9);
          doy = (153 * mp + 2) div 5 + day d - 1;
          doe = yoe * 365 + yoe div 4 - yoe div 100 + doy
      in era * 146097 + doe - 719468)"

subsection \<open>Step 4: the option selling dates\<close>

text \<open>
  \<open>data_df.resample('MS').first().index\<close>, line 63: resampling at frequency MS
  (month start) labels each bin with the first calendar day of its month, so the index
  holds the first day of every month from the month of the earliest row to the month of the
  latest row.
\<close>

definition month_index :: "date \<Rightarrow> int" where
  "month_index d = year d * 12 + (month d - 1)"

definition month_start :: "int \<Rightarrow> date" where
  "month_start i = \<lparr>year = i div 12, month = i mod 12 + 1, day = 1\<rparr>"

definition monthly_dates :: "date list \<Rightarrow> date list" where
  "monthly_dates idx =
     (if idx = [] then []
      else map month_start
             [fold min (map month_index idx) (month_index (hd idx)) ..
              fold max (map month_index idx) (month_index (hd idx))])"

text \<open>
  The first trading day of each calendar month of a trading-day sequence, as the comment
  of line 62 and the specification describe the roll dates: a date of the sequence with no
  earlier date of the sequence in its month.
\<close>

definition same_month :: "date \<Rightarrow> date \<Rightarrow> bool" where
  "same_month a b = (year a = year b \<and> month a = month b)"

fun first_trading_days_from :: "date list \<Rightarrow> date list \<Rightarrow> date list" where
  "first_trading_days_from seen [] = []"
| "first_trading_days_from seen (d # ds) =
     (if list_ex (same_month d) seen then first_trading_days_from (d # seen) ds
      else d # first_trading_days_from (d # seen) ds)"

definition first_trading_days :: "date list \<Rightarrow> date list" where
  "first_trading_days idx = first_trading_days_from [] idx"

subsection \<open>Step 5: the covered-call simulation\<close>

datatype error = ValueError | IndexError | ZeroDivisionError

text \<open>A row of \<open>data_df\<close> after \<open>dropna\<close>: the index and the columns the loop reads.\<close>

record row =
  index_date :: date
  Price :: real
  Volatility :: real

text \<open>An entry of \<open>positions\<close>: the dictionary with the keys expiration_date and K.\<close>

record position =
  expiration_date :: date
  strike_K :: real

text \<open>The variables of lines 69 to 73.\<close>

record state =
  cash :: npfloat
  shares :: int
  portfolio_value :: "npfloat list"
  dates :: "date list"
  positions :: "position list"

definition initial_state :: state where
  "initial_state = \<lparr>cash = Fin 0, shares = 0, portfolio_value = [], dates = [], positions = []\<rparr>"

definition risk_free_rate :: real where
  "risk_free_rate = 0.01"

definition shares_per_contract :: int where
  "shares_per_contract = 100"

text \<open>Lines 82 to 85: the portfolio value of the day is recorded first.\<close>

definition update_portfolio_value :: "row \<Rightarrow> state \<Rightarrow> state" where
  "update_portfolio_value rw st =
     st\<lparr>dates := dates st @ [index_date rw],
        portfolio_value := portfolio_value st @
          [np_add (cash st) (Fin (of_int (shares st) * Price rw))]\<rparr>"

text \<open>
  Lines 88 to 98: the loop over \<open>positions\<close>. The accumulator holds cash, shares and
  \<open>positions_to_remove\<close>.
\<close>

fun expiration_loop ::
  "date \<Rightarrow> real \<Rightarrow> position list \<Rightarrow> npfloat \<times> int \<times> position list
     \<Rightarrow> npfloat \<times> int \<times> position list" where
  "expiration_loop current_date S [] acc = acc"
| "expiration_loop current_date S (pos # ps) (c, sh, to_remove) =
     (if date_le (expiration_date pos) current_date then
        (if S > strike_K pos
         then expiration_loop current_date S ps
                (np_add c (Fin (of_int sh * strike_K pos)), 0, to_remove @ [pos])
         else expiration_loop current_date S ps (c, sh, to_remove @ [pos]))
      else expiration_loop current_date S ps (c, sh, to_remove))"

text \<open>\<open>list.remove(x)\<close>: drops the first element equal to x, ValueError when there is none.\<close>

fun list_remove :: "'a \<Rightarrow> 'a list \<Rightarrow> error + 'a list" where
  "list_remove x [] = Inl ValueError"
| "list_remove x (y # ys) =
     (if y = x then Inr ys
      else (case list_remove x ys of Inl e \<Rightarrow> Inl e | Inr zs \<Rightarrow> Inr (y # zs)))"

text \<open>Lines 100 and 101: the loop over \<open>positions_to_remove\<close>.\<close>

fun remove_loop :: "position list \<Rightarrow> position list \<Rightarrow> error + position list" where
  "remove_loop [] ps = Inr ps"
| "remove_loop (pos # to_remove) ps =
     (case list_remove pos ps of Inl e \<Rightarrow> Inl e | Inr ps' \<Rightarrow> remove_loop to_remove ps')"

definition check_option_expiration :: "row \<Rightarrow> state \<Rightarrow> error + state" where
  "check_option_expiration rw st =
     (case expiration_loop (index_date rw) (Price rw) (positions st) (cash st, shares st, []) of
        (c, sh, to_remove) \<Rightarrow>
          (case remove_loop to_remove (positions st) of
             Inl e \<Rightarrow> Inl e
           | Inr ps \<Rightarrow> Inr (st\<lparr>cash := c, shares := sh, positions := ps\<rparr>)))"

text \<open>Lines 104 to 117: on a date of \<open>monthly_dates\<close>, buy shares if flat and sell a call.\<close>

definition buy_shares :: "row \<Rightarrow> state \<Rightarrow> state" where
  "buy_shares rw st =
     (if shares st = 0
      then st\<lparr>shares := shares_per_contract,
              cash := np_sub (cash st) (Fin (of_int shares_per_contract * Price rw))\<rparr>
      else st)"

definition call_premium :: "row \<Rightarrow> npfloat" where
  "call_premium rw =
     np_mul (black_scholes_call (Price rw) (Price rw * 1.05) (30 / 252) risk_free_rate
               (Volatility rw))
            (Fin (of_int shares_per_contract))"

definition sell_call_option :: "date list \<Rightarrow> row \<Rightarrow> state \<Rightarrow> state" where
  "sell_call_option md rw st =
     (if index_date rw \<in> set md then
        (let st1 = buy_shares rw st
         in st1\<lparr>positions := positions st1 @
                   [\<lparr>expiration_date = add_days 30 (index_date rw),
                     strike_K = Price rw * 1.05\<rparr>],
                cash := np_add (cash st1) (call_premium rw)\<rparr>)
      else st)"

text \<open>One iteration of the loop of line 78, and the loop over the rows.\<close>

definition day_step :: "date list \<Rightarrow> row \<Rightarrow> state \<Rightarrow> error + state" where
  "day_step md rw st =
     (case check_option_expiration rw (update_portfolio_value rw st) of
        Inl e \<Rightarrow> Inl e
      | Inr st2 \<Rightarrow> Inr (sell_call_option md rw st2))"

fun run_days :: "date list \<Rightarrow> row list \<Rightarrow> state \<Rightarrow> error + state" where
  "run_days md [] st = Inr st"
| "run_days md (rw # rws) st =
     (case day_step md rw st of Inl e \<Rightarrow> Inl e | Inr st' \<Rightarrow> run_days md rws st')"

definition simulate :: "row list \<Rightarrow> error + state" where
  "simulate rws = run_days (monthly_dates (map index_date rws)) rws initial_state"

text \<open>
  The state of the script after the first n iterations of the loop over the rows; the
  dates of \<open>monthly_dates\<close> are those of the whole data frame.
\<close>

definition state_after :: "nat \<Rightarrow> row list \<Rightarrow> error + state" where
  "state_after n rws = run_days (monthly_dates (map index_date rws)) (take n rws) initial_state"

text \<open>
  What the specification asks of \<open>resolveExpirations\<close>: every obligation that is due
  is exercised or lapses, in the order of the book, and is removed; the others stay.
\<close>

definition due :: "date \<Rightarrow> position \<Rightarrow> bool" where
  "due current_date pos = date_le (expiration_date pos) current_date"

definition exercise_or_lapse :: "real \<Rightarrow> position \<Rightarrow> npfloat \<times> int \<Rightarrow> npfloat \<times> int" where
  "exercise_or_lapse S pos cs =
     (if S > strike_K pos
      then (np_add (fst cs) (Fin (of_int (snd cs) * strike_K pos)), 0)
      else cs)"

definition resolve_expirations :: "date \<Rightarrow> real \<Rightarrow> state \<Rightarrow> state" where
  "resolve_expirations current_date S st =
     (let cs = fold (exercise_or_lapse S) (filter (due current_date) (positions st))
                 (cash st, shares st)
      in st\<lparr>cash := fst cs, shares := snd cs,
            positions := filter (\<lambda>pos. \<not> due current_date pos) (positions st)\<rparr>)"

text \<open>
  The dates on which the loop sells a call, and the spacing of a list of dates: every
  date lies 30 calendar days or more after each date before it.
\<close>

definition roll_dates :: "row list \<Rightarrow> date list" where
  "roll_dates rws =
     filter (\<lambda>d. d \<in> set (monthly_dates (map index_date rws))) (map index_date rws)"

fun spaced_30_days :: "date list \<Rightarrow> bool" where
  "spaced_30_days [] = True"
| "spaced_30_days (d # ds) = (list_all (date_le (add_days 30 d)) ds \<and> spaced_30_days ds)"

subsection \<open>Step 3: the rolling volatility\<close>

text \<open>
  Lines 50 to 57. A column of the data frame is a list of floats, nan for a missing
  value. \<open>shift(1)\<close> moves a column one row down; \<open>rolling(window).std()\<close> is the
  sample standard deviation (one delta degree of freedom) of the last \<open>window\<close> values
  and nan unless the window holds \<open>window\<close> values that are not nan; \<open>dropna\<close> keeps
  the rows with no nan. An infinite value in a window (a price that is not positive) is
  outside the domain the theorems cover and gives nan here.
\<close>

definition shift1 :: "npfloat list \<Rightarrow> npfloat list" where
  "shift1 xs = take (length xs) (NaN # xs)"

definition returns_column :: "real list \<Rightarrow> npfloat list" where
  "returns_column prices =
     map2 (\<lambda>p q. np_log (np_div p q)) (map Fin prices) (shift1 (map Fin prices))"

fun finite_value :: "npfloat \<Rightarrow> real option" where
  "finite_value (Fin x) = Some x"
| "finite_value _ = None"

definition sample_std :: "real list \<Rightarrow> npfloat" where
  "sample_std xs =
     (let n = length xs; mean = sum_list xs / real n
      in np_sqrt (np_div (Fin (sum_list (map (\<lambda>x. (x - mean)\<^sup>2) xs))) (Fin (real n - 1))))"

definition window_at :: "nat \<Rightarrow> 'a list \<Rightarrow> nat \<Rightarrow> 'a list" where
  "window_at w xs i = drop (Suc i - w) (take (Suc i) xs)"

definition rolling_std :: "nat \<Rightarrow> npfloat list \<Rightarrow> npfloat list" where
  "rolling_std w xs =
     map (\<lambda>i. let vals = List.map_filter finite_value (window_at w xs i)
              in if length vals = w then sample_std vals else NaN)
         [0..<length xs]"

definition window_size :: nat where
  "window_size = 30"

definition volatility_column :: "real list \<Rightarrow> npfloat list" where
  "volatility_column prices =
     map (\<lambda>v. np_mul v (np_sqrt (Fin 252))) (rolling_std window_size (returns_column prices))"

fun dropna_row :: "date \<times> real \<Rightarrow> npfloat \<Rightarrow> npfloat \<Rightarrow> row option" where
  "dropna_row dp NaN vol = None"
| "dropna_row dp ret (Fin v) = Some \<lparr>index_date = fst dp, Price = snd dp, Volatility = v\<rparr>"
| "dropna_row dp ret vol = None"

definition data_df :: "(date \<times> real) list \<Rightarrow> row list" where
  "data_df series =
     List.map_filter (\<lambda>i. dropna_row (series ! i)
                             (returns_column (map snd series) ! i)
                             (volatility_column (map snd series) ! i))
       [0..<length series]"

subsection \<open>Step 8: the performance metrics of the covered-call strategy\<close>

text \<open>
  numpy's power of a float64 base by a finite Python float, as C's pow: any base to the
  power 0 is 1, a negative base to a power that is not an integer is nan.
\<close>

definition np_power :: "npfloat \<Rightarrow> real \<Rightarrow> npfloat" where
  "np_power b y =
     (if y = 0 then Fin 1
      else (case b of
              NaN \<Rightarrow> NaN
            | PInf \<Rightarrow> (if 0 < y then PInf else Fin 0)
            | NInf \<Rightarrow> (if 0 < y then (if of_int \<lfloor>y\<rfloor> = y \<and> odd \<lfloor>y\<rfloor> then NInf else PInf)
                       else Fin 0)
            | Fin x \<Rightarrow>
                (if 0 < x then Fin (x powr y)
                 else if x = 0 then (if 0 < y then Fin 0 else PInf)
                 else if of_int \<lfloor>y\<rfloor> = y
                   then Fin ((if even \<lfloor>y\<rfloor> then 1 else - 1) * (\<bar>x\<bar> powr y))
                   else NaN)))"

text \<open>
  Line 147: \<open>portfolio_value\<close> is a Python list, so an index into the empty list raises
  IndexError; its elements are numpy floats, so the division raises nothing.
\<close>

definition covered_call_return :: "npfloat list \<Rightarrow> error + npfloat" where
  "covered_call_return pv =
     (if pv = [] then Inl IndexError
      else Inr (np_div (np_sub (last pv) (hd pv)) (hd pv)))"

text \<open>Line 154: the days between the first and the last date of the portfolio frame.\<close>

definition elapsed_days :: "date list \<Rightarrow> error + int" where
  "elapsed_days ds =
     (if ds = [] then Inl IndexError else Inr (day_number (last ds) - day_number (hd ds)))"

text \<open>
  Lines 155 and 157: \<open>years\<close> is a Python float and \<open>1 / years\<close> a division of Python
  numbers, which raises ZeroDivisionError when \<open>years\<close> is zero.
\<close>

definition annualized_return :: "npfloat \<Rightarrow> int \<Rightarrow> error + npfloat" where
  "annualized_return total_return days =
     (let years = real_of_int days / 365.25
      in if years = 0 then Inl ZeroDivisionError
         else Inr (np_sub (np_power (np_add (Fin 1) total_return) (1 / years)) (Fin 1)))"

text \<open>
  The covered-call figures of step 8: the total return and the annualized return. The
  buy-and-hold figures, computed between them from the price column alone, are left out.
\<close>

definition covered_call_metrics :: "state \<Rightarrow> error + npfloat \<times> npfloat" where
  "covered_call_metrics st =
     (case covered_call_return (portfolio_value st) of
        Inl e \<Rightarrow> Inl e
      | Inr total_return \<Rightarrow>
          (case elapsed_days (dates st) of
             Inl e \<Rightarrow> Inl e
           | Inr days \<Rightarrow>
               (case annualized_return total_return days of
                  Inl e \<Rightarrow> Inl e
                | Inr annualized \<Rightarrow> Inr (total_return, annualized))))"

text \<open>
  The state a day leaves behind when nothing is raised: the portfolio value is recorded,
  the due obligations are resolved, and a call is sold on a date of \<open>monthly_dates\<close>.
\<close>

definition day_result :: "date list \<Rightarrow> row \<Rightarrow> state \<Rightarrow> state" where
  "day_result md rw st = sell_call_option md rw
      (resolve_expirations (index_date rw) (Price rw) (update_portfolio_value rw st))"

text \<open>Steps 5 to 8 of the script in sequence: the simulation, then the metrics.\<close>

definition run_script :: "row list \<Rightarrow> error + npfloat \<times> npfloat" where
  "run_script rws =
     (case simulate rws of Inl e \<Rightarrow> Inl e | Inr st \<Rightarrow> covered_call_metrics st)"

section \<open>Theorems\<close>

subsection \<open>The option pricer\<close>

text \<open>
  C9. For all S > 0, K > 0, T > 0, sigma > 0 and every rate r, the pricer returns the
  finite value S * Phi(d1) - K * exp(-r T) * Phi(d2) with d1 and d2 as in the
  specification, where Phi is the standard normal distribution function. The result is a
  function of the five arguments alone.
\<close>

theorem black_scholes_call_closed_form:
  assumes "0 < S" and "0 < strike" and "0 < T" and "0 < sigma"
  shows "black_scholes_call S strike T r sigma = Fin (spec_premium S strike T r sigma)"
proof -
  have q: "0 < S / strike" using assms by simp
  have den: "sigma * sqrt T \<noteq> 0" using assms by simp
  show ?thesis
    using assms q den
    by (simp add: black_scholes_call_def spec_premium_def spec_d1_def spec_d2_def
        np_sub_def Let_def)
qed

theorem black_scholes_call_closed_form_witness:
  "(0::real) < 100 \<and> (0::real) < 105 \<and> (0::real) < 30 / 252 \<and> (0::real) < 1 / 5 \<and>
   black_scholes_call 100 105 (30 / 252) (1 / 100) (1 / 5)
     = Fin (spec_premium 100 105 (30 / 252) (1 / 100) (1 / 5))"
  using black_scholes_call_closed_form [of 100 105 "30 / 252" "1 / 5" "1 / 100"]
  by simp

subsection \<open>The loop never raises\<close>

lemma expiration_loop_fold:
  "expiration_loop cur S ps (c, sh, rm) =
     (fst (fold (exercise_or_lapse S) (filter (due cur) ps) (c, sh)),
      snd (fold (exercise_or_lapse S) (filter (due cur) ps) (c, sh)),
      rm @ filter (due cur) ps)"
  by (induction ps arbitrary: c sh rm) (simp_all add: due_def exercise_or_lapse_def)

lemma list_remove_first:
  "x \<notin> set pre \<Longrightarrow> list_remove x (pre @ x # ys) = Inr (pre @ ys)"
  by (induction pre) auto

lemma remove_loop_filter:
  "\<forall>p\<in>set pre. \<not> P p \<Longrightarrow>
   remove_loop (filter P ps) (pre @ ps) = Inr (pre @ filter (\<lambda>p. \<not> P p) ps)"
proof (induction ps arbitrary: pre)
  case Nil
  then show ?case by simp
next
  case (Cons x ps)
  show ?case
  proof (cases "P x")
    case True
    then have "x \<notin> set pre" using Cons.prems by blast
    then show ?thesis using True Cons.IH [OF Cons.prems] by (simp add: list_remove_first)
  next
    case False
    then have "\<forall>p\<in>set (pre @ [x]). \<not> P p" using Cons.prems by simp
    from Cons.IH [OF this] show ?thesis using False by simp
  qed
qed

lemma check_option_expiration_resolves:
  "check_option_expiration rw st = Inr (resolve_expirations (index_date rw) (Price rw) st)"
  using remove_loop_filter [of "[]" "due (index_date rw)" "positions st"]
  by (simp add: check_option_expiration_def expiration_loop_fold resolve_expirations_def Let_def)

lemma day_step_result: "day_step md rw st = Inr (day_result md rw st)"
  by (simp add: day_step_def check_option_expiration_resolves day_result_def)

lemma run_days_fold: "run_days md rws st = Inr (fold (day_result md) rws st)"
  by (induction rws arbitrary: st) (simp_all add: day_step_result)

subsection \<open>Expiration\<close>

text \<open>
  C7. Checking for expiration resolves exactly the obligations whose expiration date is on
  or before the current date: in the order of the book, each one is exercised when the
  price is above its strike (cash grows by shares times strike, shares become 0) and
  lapses otherwise (cash and shares unchanged); every resolved obligation is removed, the
  obligations that expire later and the recorded values and dates are untouched, and the
  step changes nothing when no obligation is due.
\<close>

theorem check_option_expiration_resolves_due:
  "check_option_expiration rw st = Inr (resolve_expirations (index_date rw) (Price rw) st) \<and>
   portfolio_value (resolve_expirations (index_date rw) (Price rw) st) = portfolio_value st \<and>
   dates (resolve_expirations (index_date rw) (Price rw) st) = dates st \<and>
   ((\<forall>pos \<in> set (positions st). \<not> due (index_date rw) pos) \<longrightarrow>
      check_option_expiration rw st = Inr st) \<and>
   (positions st = [pos] \<and> due (index_date rw) pos \<and> Price rw > strike_K pos \<longrightarrow>
      check_option_expiration rw st =
        Inr (st\<lparr>cash := np_add (cash st) (Fin (of_int (shares st) * strike_K pos)),
                shares := 0, positions := []\<rparr>)) \<and>
   (positions st = [pos] \<and> due (index_date rw) pos \<and> \<not> Price rw > strike_K pos \<longrightarrow>
      check_option_expiration rw st = Inr (st\<lparr>positions := []\<rparr>))"
proof -
  have none: "check_option_expiration rw st = Inr st"
    if "\<forall>pos \<in> set (positions st). \<not> due (index_date rw) pos"
  proof -
    from that have "filter (due (index_date rw)) (positions st) = []"
      and "filter (\<lambda>pos. \<not> due (index_date rw) pos) (positions st) = positions st"
      by (simp_all add: filter_empty_conv)
    then show ?thesis
      by (simp add: check_option_expiration_resolves resolve_expirations_def)
  qed
  show ?thesis
    using none
    by (auto simp: check_option_expiration_resolves resolve_expirations_def Let_def
        exercise_or_lapse_def)
qed

theorem check_option_expiration_resolves_due_witness:
  "check_option_expiration \<lparr>index_date = \<lparr>year = 2021, month = 3, day = 3\<rparr>, Price = 120, Volatility = 0.2\<rparr>
     \<lparr>cash = Fin (- 10000), shares = 100, portfolio_value = [Fin 0], dates = [\<lparr>year = 2021, month = 2, day = 1\<rparr>],
      positions = [\<lparr>expiration_date = \<lparr>year = 2021, month = 3, day = 3\<rparr>, strike_K = 105\<rparr>]\<rparr>
   = Inr \<lparr>cash = Fin 500, shares = 0, portfolio_value = [Fin 0], dates = [\<lparr>year = 2021, month = 2, day = 1\<rparr>],
      positions = []\<rparr>"
  using check_option_expiration_resolves_due
    [of "\<lparr>index_date = \<lparr>year = 2021, month = 3, day = 3\<rparr>, Price = 120, Volatility = 0.2\<rparr>"
        "\<lparr>cash = Fin (- 10000), shares = 100, portfolio_value = [Fin 0], dates = [\<lparr>year = 2021, month = 2, day = 1\<rparr>],
          positions = [\<lparr>expiration_date = \<lparr>year = 2021, month = 3, day = 3\<rparr>, strike_K = 105\<rparr>]\<rparr>"
        "\<lparr>expiration_date = \<lparr>year = 2021, month = 3, day = 3\<rparr>, strike_K = 105\<rparr>",
      THEN conjunct2, THEN conjunct2, THEN conjunct2, THEN conjunct2, THEN conjunct1]
  by (simp add: due_def date_le_def)

subsection \<open>Shares\<close>

lemma fold_exercise_shares:
  "snd (fold (exercise_or_lapse S) ps (c, sh)) \<in> {0, sh}"
  by (induction ps arbitrary: c sh) (auto simp: exercise_or_lapse_def)

lemma resolve_expirations_shares:
  "shares (resolve_expirations d S st) \<in> {0, shares st}"
  using fold_exercise_shares [of S "filter (due d) (positions st)" "cash st" "shares st"]
  by (simp add: resolve_expirations_def Let_def)

lemma buy_shares_shares:
  "shares st \<in> {0, shares_per_contract} \<Longrightarrow> shares (buy_shares rw st) = shares_per_contract"
  by (auto simp: buy_shares_def)

lemma sell_call_option_shares:
  "shares st \<in> {0, shares_per_contract} \<Longrightarrow>
   shares (sell_call_option md rw st) \<in> {0, shares_per_contract}"
  by (auto simp: sell_call_option_def buy_shares_def Let_def)

lemma update_portfolio_value_shares [simp]:
  "shares (update_portfolio_value rw st) = shares st"
  by (simp add: update_portfolio_value_def)

lemma day_result_shares:
  assumes "shares st \<in> {0, shares_per_contract}"
  shows "shares (day_result md rw st) \<in> {0, shares_per_contract}"
proof -
  have "shares (resolve_expirations (index_date rw) (Price rw) (update_portfolio_value rw st))
          \<in> {0, shares_per_contract}"
    using resolve_expirations_shares [of "index_date rw" "Price rw" "update_portfolio_value rw st"]
      assms by auto
  then show ?thesis unfolding day_result_def by (rule sell_call_option_shares)
qed

lemma fold_day_result_shares:
  "shares st \<in> {0, shares_per_contract} \<Longrightarrow>
   shares (fold (day_result md) rws st) \<in> {0, shares_per_contract}"
proof (induction rws arbitrary: st)
  case Nil
  then show ?case by simp
next
  case (Cons rw rws)
  from Cons.prems have "shares (day_result md rw st) \<in> {0, shares_per_contract}"
    by (rule day_result_shares)
  from Cons.IH [OF this] show ?case by simp
qed

text \<open>
  C8. At every point of the simulation the share count is 0 or \<open>shares_per_contract\<close>
  (100): after any number n of days, and on the next day after the value is recorded,
  after each iteration of the expiration loop (the first k positions), after the
  expirations are resolved, after shares are bought and after the call is sold.
\<close>

theorem shares_zero_or_one_contract:
  "\<exists>st. state_after n rws = Inr st \<and> shares st \<in> {0, shares_per_contract} \<and>
     shares (update_portfolio_value rw st) \<in> {0, shares_per_contract} \<and>
     fst (snd (expiration_loop (index_date rw) (Price rw) (take k (positions st))
                 (cash st, shares st, []))) \<in> {0, shares_per_contract} \<and>
     (\<exists>st2. check_option_expiration rw (update_portfolio_value rw st) = Inr st2 \<and>
        shares st2 \<in> {0, shares_per_contract} \<and>
        shares (buy_shares rw st2) \<in> {0, shares_per_contract} \<and>
        shares (sell_call_option md rw st2) \<in> {0, shares_per_contract})"
proof -
  define st where "st = fold (day_result (monthly_dates (map index_date rws))) (take n rws) initial_state"
  define st2 where "st2 = resolve_expirations (index_date rw) (Price rw) (update_portfolio_value rw st)"
  have run: "state_after n rws = Inr st"
    by (simp add: state_after_def run_days_fold st_def)
  have "shares initial_state \<in> {0, shares_per_contract}" by (simp add: initial_state_def)
  then have sh: "shares st \<in> {0, shares_per_contract}"
    unfolding st_def by (rule fold_day_result_shares)
  have loop: "fst (snd (expiration_loop (index_date rw) (Price rw) (take k (positions st))
                 (cash st, shares st, []))) \<in> {0, shares_per_contract}"
    using fold_exercise_shares [of "Price rw" "filter (due (index_date rw)) (take k (positions st))"
        "cash st" "shares st"] sh
    by (auto simp: expiration_loop_fold)
  have sh2: "shares st2 \<in> {0, shares_per_contract}"
    using resolve_expirations_shares [of "index_date rw" "Price rw" "update_portfolio_value rw st"] sh
    by (auto simp: st2_def)
  have "check_option_expiration rw (update_portfolio_value rw st) = Inr st2"
    by (simp add: check_option_expiration_resolves st2_def)
  moreover have "shares (buy_shares rw st2) \<in> {0, shares_per_contract}"
    using buy_shares_shares [OF sh2] by simp
  moreover have "shares (sell_call_option md rw st2) \<in> {0, shares_per_contract}"
    using sh2 by (rule sell_call_option_shares)
  ultimately show ?thesis using run sh loop sh2 by auto
qed

theorem shares_zero_or_one_contract_witness:
  "\<exists>st. state_after 1 [\<lparr>index_date = \<lparr>year = 2021, month = 2, day = 1\<rparr>, Price = 100,
                            Volatility = 0.2\<rparr>] = Inr st \<and>
     shares st \<in> {0, shares_per_contract} \<and>
     shares (update_portfolio_value
        \<lparr>index_date = \<lparr>year = 2021, month = 3, day = 3\<rparr>, Price = 120, Volatility = 0.2\<rparr> st)
       \<in> {0, shares_per_contract} \<and>
     fst (snd (expiration_loop \<lparr>year = 2021, month = 3, day = 3\<rparr> 120 (take 1 (positions st))
                 (cash st, shares st, []))) \<in> {0, shares_per_contract} \<and>
     (\<exists>st2. check_option_expiration
              \<lparr>index_date = \<lparr>year = 2021, month = 3, day = 3\<rparr>, Price = 120, Volatility = 0.2\<rparr>
              (update_portfolio_value
                \<lparr>index_date = \<lparr>year = 2021, month = 3, day = 3\<rparr>, Price = 120,
                   Volatility = 0.2\<rparr> st) = Inr st2 \<and>
        shares st2 \<in> {0, shares_per_contract} \<and>
        shares (buy_shares
          \<lparr>index_date = \<lparr>year = 2021, month = 3, day = 3\<rparr>, Price = 120, Volatility = 0.2\<rparr> st2)
          \<in> {0, shares_per_contract} \<and>
        shares (sell_call_option [\<lparr>year = 2021, month = 2, day = 1\<rparr>]
          \<lparr>index_date = \<lparr>year = 2021, month = 3, day = 3\<rparr>, Price = 120, Volatility = 0.2\<rparr> st2)
          \<in> {0, shares_per_contract})"
  using shares_zero_or_one_contract
    [of 1 "[\<lparr>index_date = \<lparr>year = 2021, month = 2, day = 1\<rparr>, Price = 100, Volatility = 0.2\<rparr>]"
        "\<lparr>index_date = \<lparr>year = 2021, month = 3, day = 3\<rparr>, Price = 120, Volatility = 0.2\<rparr>"
        1 "[\<lparr>year = 2021, month = 2, day = 1\<rparr>]"]
  by simp

subsection \<open>The recorded portfolio values\<close>

lemma day_result_portfolio_value:
  "portfolio_value (day_result md rw st) =
     portfolio_value st @ [np_add (cash st) (Fin (of_int (shares st) * Price rw))]"
  by (simp add: day_result_def sell_call_option_def buy_shares_def resolve_expirations_def
      update_portfolio_value_def Let_def)

lemma day_result_dates:
  "dates (day_result md rw st) = dates st @ [index_date rw]"
  by (simp add: day_result_def sell_call_option_def buy_shares_def resolve_expirations_def
      update_portfolio_value_def Let_def)

lemma fold_day_result_portfolio_value:
  "\<exists>zs. portfolio_value (fold (day_result md) rws st) = portfolio_value st @ zs \<and>
        length zs = length rws"
proof (induction rws arbitrary: st)
  case Nil
  then show ?case by simp
next
  case (Cons rw rws)
  from Cons.IH [of "day_result md rw st"] show ?case
    by (auto simp: day_result_portfolio_value)
qed

lemma fold_day_result_dates:
  "dates (fold (day_result md) rws st) = dates st @ map index_date rws"
  by (induction rws arbitrary: st) (simp_all add: day_result_dates)

lemma fold_day_result_nth:
  assumes "i < length rws"
  shows "portfolio_value (fold (day_result md) rws st) ! (length (portfolio_value st) + i) =
           np_add (cash (fold (day_result md) (take i rws) st))
                  (Fin (of_int (shares (fold (day_result md) (take i rws) st)) * Price (rws ! i)))"
proof -
  define st_i where "st_i = fold (day_result md) (take i rws) st"
  have split: "rws = take i rws @ rws ! i # drop (Suc i) rws"
    using assms by (rule id_take_nth_drop)
  have "fold (day_result md) rws st =
          fold (day_result md) (drop (Suc i) rws) (day_result md (rws ! i) st_i)"
    by (subst split) (simp add: st_i_def)
  moreover obtain zs where zs: "portfolio_value (fold (day_result md) (drop (Suc i) rws)
        (day_result md (rws ! i) st_i)) = portfolio_value (day_result md (rws ! i) st_i) @ zs"
    using fold_day_result_portfolio_value by blast
  moreover obtain ys where ys: "portfolio_value st_i = portfolio_value st @ ys" "length ys = length (take i rws)"
    unfolding st_i_def using fold_day_result_portfolio_value by blast
  ultimately have "portfolio_value (fold (day_result md) rws st) =
      (portfolio_value st @ ys) @ np_add (cash st_i) (Fin (of_int (shares st_i) * Price (rws ! i))) # zs"
    by (simp add: day_result_portfolio_value)
  moreover have "length (portfolio_value st @ ys) = length (portfolio_value st) + i"
    using ys assms by simp
  ultimately show ?thesis
    unfolding st_i_def [symmetric] by (metis nth_append_length)
qed

text \<open>
  C6. On every simulated day i the recorded portfolio value is cash + shares * price of
  that day, taken from the state as it stood at the start of the day, that is after the
  first i days and before the day's expiration check, share purchase and call sale; one
  value and one date are recorded per day.
\<close>

theorem portfolio_value_marked_at_start_of_day:
  assumes "i < length rws"
  shows "\<exists>st_i st. state_after i rws = Inr st_i \<and> simulate rws = Inr st \<and>
           length (portfolio_value st) = length rws \<and>
           portfolio_value st ! i =
             np_add (cash st_i) (Fin (of_int (shares st_i) * Price (rws ! i))) \<and>
           dates st ! i = index_date (rws ! i)"
proof -
  let ?md = "monthly_dates (map index_date rws)"
  have "portfolio_value (fold (day_result ?md) rws initial_state) ! i =
          np_add (cash (fold (day_result ?md) (take i rws) initial_state))
            (Fin (of_int (shares (fold (day_result ?md) (take i rws) initial_state)) * Price (rws ! i)))"
    using fold_day_result_nth [OF assms, of ?md initial_state] by (simp add: initial_state_def)
  moreover have "length (portfolio_value (fold (day_result ?md) rws initial_state)) = length rws"
    using fold_day_result_portfolio_value [of ?md rws initial_state]
    by (auto simp: initial_state_def)
  moreover have "dates (fold (day_result ?md) rws initial_state) ! i = index_date (rws ! i)"
    using assms by (simp add: fold_day_result_dates initial_state_def)
  ultimately show ?thesis
    by (simp add: state_after_def simulate_def run_days_fold)
qed

theorem portfolio_value_marked_at_start_of_day_witness:
  "(1::nat) < length [\<lparr>index_date = \<lparr>year = 2021, month = 2, day = 1\<rparr>, Price = 100, Volatility = 0.2\<rparr>,
                     \<lparr>index_date = \<lparr>year = 2021, month = 2, day = 2\<rparr>, Price = 101, Volatility = 0.2\<rparr>] \<and>
   (\<exists>st_i st.
      state_after 1 [\<lparr>index_date = \<lparr>year = 2021, month = 2, day = 1\<rparr>, Price = 100, Volatility = 0.2\<rparr>,
                     \<lparr>index_date = \<lparr>year = 2021, month = 2, day = 2\<rparr>, Price = 101, Volatility = 0.2\<rparr>]
        = Inr st_i \<and>
      simulate [\<lparr>index_date = \<lparr>year = 2021, month = 2, day = 1\<rparr>, Price = 100, Volatility = 0.2\<rparr>,
                \<lparr>index_date = \<lparr>year = 2021, month = 2, day = 2\<rparr>, Price = 101, Volatility = 0.2\<rparr>]
        = Inr st \<and>
      length (portfolio_value st) = 2 \<and>
      portfolio_value st ! 1 = np_add (cash st_i) (Fin (of_int (shares st_i) * 101)) \<and>
      dates st ! 1 = \<lparr>year = 2021, month = 2, day = 2\<rparr>)"
  using portfolio_value_marked_at_start_of_day
    [of 1 "[\<lparr>index_date = \<lparr>year = 2021, month = 2, day = 1\<rparr>, Price = 100, Volatility = 0.2\<rparr>,
            \<lparr>index_date = \<lparr>year = 2021, month = 2, day = 2\<rparr>, Price = 101, Volatility = 0.2\<rparr>]"]
  by (simp add: numeral_2_eq_2)

text \<open>
  C5. For every non-empty range of rows the first recorded portfolio value is exactly 0:
  cash and shares start at 0 and the value is recorded before any share is bought. The
  total return of the covered-call strategy therefore divides by 0.
\<close>

theorem first_portfolio_value_is_zero:
  assumes "rws \<noteq> []"
  shows "\<exists>st. simulate rws = Inr st \<and> portfolio_value st \<noteq> [] \<and>
           hd (portfolio_value st) = Fin 0 \<and>
           covered_call_return (portfolio_value st)
             = Inr (np_div (np_sub (last (portfolio_value st)) (Fin 0)) (Fin 0))"
proof -
  let ?md = "monthly_dates (map index_date rws)"
  let ?st = "fold (day_result ?md) rws initial_state"
  from assms have pos: "0 < length rws" by simp
  have len: "length (portfolio_value ?st) = length rws"
    using fold_day_result_portfolio_value [of ?md rws initial_state]
    by (auto simp: initial_state_def)
  then have ne: "portfolio_value ?st \<noteq> []" using pos by auto
  have "portfolio_value ?st ! 0 = Fin 0"
    using fold_day_result_nth [OF pos, of ?md initial_state] by (simp add: initial_state_def)
  then have "hd (portfolio_value ?st) = Fin 0" using ne by (simp add: hd_conv_nth)
  then show ?thesis using ne
    by (simp add: simulate_def run_days_fold covered_call_return_def)
qed

theorem first_portfolio_value_is_zero_witness:
  "[\<lparr>index_date = \<lparr>year = 2021, month = 2, day = 1\<rparr>, Price = 100, Volatility = 0.2\<rparr>] \<noteq> [] \<and>
   (\<exists>st. simulate [\<lparr>index_date = \<lparr>year = 2021, month = 2, day = 1\<rparr>, Price = 100, Volatility = 0.2\<rparr>]
            = Inr st \<and>
      portfolio_value st \<noteq> [] \<and> hd (portfolio_value st) = Fin 0 \<and>
      covered_call_return (portfolio_value st)
        = Inr (np_div (np_sub (last (portfolio_value st)) (Fin 0)) (Fin 0)))"
  using first_portfolio_value_is_zero
    [of "[\<lparr>index_date = \<lparr>year = 2021, month = 2, day = 1\<rparr>, Price = 100, Volatility = 0.2\<rparr>]"]
  by simp

subsection \<open>Roll dates\<close>

text \<open>Calendar facts used at the concrete inputs below.\<close>

lemma add30_feb1: "add_days 30 \<lparr>year = 2021, month = 2, day = 1\<rparr> = \<lparr>year = 2021, month = 3, day = 3\<rparr>"
  by (simp add: eval_nat_numeral next_day_def days_in_month_def leap_year_def)

lemma add30_mar1: "add_days 30 \<lparr>year = 2021, month = 3, day = 1\<rparr> = \<lparr>year = 2021, month = 3, day = 31\<rparr>"
  by (simp add: eval_nat_numeral next_day_def days_in_month_def leap_year_def)

lemma monthly_dates_feb_mar_2021: "monthly_dates [\<lparr>year = 2021, month = 2, day = 1\<rparr>, \<lparr>year = 2021, month = 3, day = 1\<rparr>]
   = [\<lparr>year = 2021, month = 2, day = 1\<rparr>, \<lparr>year = 2021, month = 3, day = 1\<rparr>]"
  by (simp add: monthly_dates_def month_index_def month_start_def upto.simps)

lemma monthly_dates_feb_mar_2020: "monthly_dates [\<lparr>year = 2020, month = 2, day = 28\<rparr>, \<lparr>year = 2020, month = 3, day = 2\<rparr>, \<lparr>year = 2020, month = 3, day = 3\<rparr>]
   = [\<lparr>year = 2020, month = 2, day = 1\<rparr>, \<lparr>year = 2020, month = 3, day = 1\<rparr>]"
  by (simp add: monthly_dates_def month_index_def month_start_def upto.simps)

lemma monthly_dates_mar_apr_2021: "monthly_dates [\<lparr>year = 2021, month = 3, day = 1\<rparr>, \<lparr>year = 2021, month = 4, day = 1\<rparr>]
   = [\<lparr>year = 2021, month = 3, day = 1\<rparr>, \<lparr>year = 2021, month = 4, day = 1\<rparr>]"
  by (simp add: monthly_dates_def month_index_def month_start_def upto.simps)

text \<open>
  A date of the index with a month between 1 and 12 is in \<open>monthly_dates\<close> exactly
  when it is the first calendar day of its month.
\<close>

lemma fold_min_le: "fold min xs (a::int) \<le> a \<and> (\<forall>x \<in> set xs. fold min xs a \<le> x)"
proof (induction xs arbitrary: a)
  case Nil
  then show ?case by simp
next
  case (Cons x xs)
  from Cons.IH [of "min x a"] show ?case by auto
qed

lemma fold_max_ge: "a \<le> fold max xs (a::int) \<and> (\<forall>x \<in> set xs. x \<le> fold max xs a)"
proof (induction xs arbitrary: a)
  case Nil
  then show ?case by simp
next
  case (Cons x xs)
  from Cons.IH [of "max x a"] show ?case by auto
qed

lemma month_start_month_index:
  "1 \<le> month d \<Longrightarrow> month d \<le> 12 \<Longrightarrow> day d = 1 \<Longrightarrow> month_start (month_index d) = d"
  by (cases d) (simp add: month_start_def month_index_def)

lemma monthly_dates_member:
  assumes "d \<in> set idx" and "1 \<le> month d" and "month d \<le> 12"
  shows "d \<in> set (monthly_dates idx) \<longleftrightarrow> day d = 1"
proof
  assume "d \<in> set (monthly_dates idx)"
  then show "day d = 1" by (auto simp: monthly_dates_def month_start_def split: if_splits)
next
  assume d1: "day d = 1"
  from assms(1) have ne: "idx \<noteq> []" by auto
  have "month_index d \<in> set (map month_index idx)" using assms(1) by simp
  then have "fold min (map month_index idx) (month_index (hd idx)) \<le> month_index d"
    and "month_index d \<le> fold max (map month_index idx) (month_index (hd idx))"
    using fold_min_le [of "map month_index idx" "month_index (hd idx)"]
      fold_max_ge [of "month_index (hd idx)" "map month_index idx"] by blast+
  then have "month_start (month_index d) \<in> set (monthly_dates idx)"
    using ne by (simp add: monthly_dates_def)
  then show "d \<in> set (monthly_dates idx)"
    using month_start_month_index [OF assms(2,3) d1] by simp
qed

lemma day_result_positions:
  "positions (day_result md rw st) =
     filter (\<lambda>pos. \<not> due (index_date rw) pos) (positions st) @
     (if index_date rw \<in> set md
      then [\<lparr>expiration_date = add_days 30 (index_date rw), strike_K = Price rw * 1.05\<rparr>]
      else [])"
  by (simp add: day_result_def sell_call_option_def buy_shares_def resolve_expirations_def
      update_portfolio_value_def Let_def)

text \<open>
  C2. The claim is that the dates on which a call is sold are the first trading days of
  the calendar months of the sequence. On the trading days 2020-02-28, 2020-03-02 and
  2020-03-03 the first trading days are 2020-02-28 and 2020-03-02, but \<open>monthly_dates\<close>
  holds 2020-02-01 and 2020-03-01, neither of which is a trading day: the loop sells no
  call at all.
\<close>

theorem roll_dates_failing_input:
  "roll_dates [\<lparr>index_date = \<lparr>year = 2020, month = 2, day = 28\<rparr>, Price = 100, Volatility = 0.2\<rparr>,
               \<lparr>index_date = \<lparr>year = 2020, month = 3, day = 2\<rparr>, Price = 100, Volatility = 0.2\<rparr>,
               \<lparr>index_date = \<lparr>year = 2020, month = 3, day = 3\<rparr>, Price = 100, Volatility = 0.2\<rparr>] = [] \<and>
   first_trading_days [\<lparr>year = 2020, month = 2, day = 28\<rparr>, \<lparr>year = 2020, month = 3, day = 2\<rparr>,
                       \<lparr>year = 2020, month = 3, day = 3\<rparr>]
     = [\<lparr>year = 2020, month = 2, day = 28\<rparr>, \<lparr>year = 2020, month = 3, day = 2\<rparr>] \<and>
   map_sum id positions
     (simulate [\<lparr>index_date = \<lparr>year = 2020, month = 2, day = 28\<rparr>, Price = 100, Volatility = 0.2\<rparr>,
               \<lparr>index_date = \<lparr>year = 2020, month = 3, day = 2\<rparr>, Price = 100, Volatility = 0.2\<rparr>,
               \<lparr>index_date = \<lparr>year = 2020, month = 3, day = 3\<rparr>, Price = 100, Volatility = 0.2\<rparr>]) = Inr []"
  by (simp add: roll_dates_def monthly_dates_feb_mar_2020 first_trading_days_def same_month_def
      simulate_def run_days_fold day_result_positions initial_state_def)

subsection \<open>Open obligations\<close>

text \<open>
  C1 as stated fails. 2021-02-01 and 2021-03-01 are both in \<open>monthly_dates\<close>; the
  call sold on 2021-02-01 expires on 2021-03-03, so it is still open when the second call
  is sold on 2021-03-01, and two obligations are open after that day.
\<close>

theorem two_open_obligations_counterexample:
  "map_sum id positions
     (simulate [\<lparr>index_date = \<lparr>year = 2021, month = 2, day = 1\<rparr>, Price = 100, Volatility = 0.2\<rparr>,
                \<lparr>index_date = \<lparr>year = 2021, month = 3, day = 1\<rparr>, Price = 100, Volatility = 0.2\<rparr>])
   = Inr [\<lparr>expiration_date = \<lparr>year = 2021, month = 3, day = 3\<rparr>, strike_K = 105\<rparr>,
          \<lparr>expiration_date = \<lparr>year = 2021, month = 3, day = 31\<rparr>, strike_K = 105\<rparr>]"
  by (simp add: simulate_def run_days_fold day_result_positions monthly_dates_feb_mar_2021 add30_feb1 add30_mar1
      initial_state_def due_def date_le_def)

lemma fold_day_result_one_position:
  assumes "spaced_30_days (filter (\<lambda>d. d \<in> set md) (map index_date rws))"
    and "\<forall>pos \<in> set (positions st).
           list_all (date_le (expiration_date pos)) (filter (\<lambda>d. d \<in> set md) (map index_date rws))"
    and "length (positions st) \<le> 1"
  shows "length (positions (fold (day_result md) (take n rws) st)) \<le> 1"
  using assms
proof (induction rws arbitrary: st n)
  case Nil
  then show ?case by simp
next
  case (Cons rw rws)
  show ?case
  proof (cases n)
    case 0
    then show ?thesis using Cons.prems(3) by simp
  next
    case (Suc m)
    let ?st' = "day_result md rw st"
    let ?rolls = "filter (\<lambda>d. d \<in> set md) (map index_date rws)"
    have sp: "spaced_30_days ?rolls" using Cons.prems(1) by (simp split: if_splits)
    have "(\<forall>pos \<in> set (positions ?st'). list_all (date_le (expiration_date pos)) ?rolls)
          \<and> length (positions ?st') \<le> 1"
    proof (cases "index_date rw \<in> set md")
      case True
      then have "\<forall>pos \<in> set (positions st). due (index_date rw) pos"
        using Cons.prems(2) by (simp add: due_def)
      then have "filter (\<lambda>pos. \<not> due (index_date rw) pos) (positions st) = []"
        by (simp add: filter_empty_conv)
      then have "positions ?st' =
          [\<lparr>expiration_date = add_days 30 (index_date rw), strike_K = Price rw * 1.05\<rparr>]"
        using True by (simp add: day_result_positions)
      then show ?thesis using Cons.prems(1) True by simp
    next
      case False
      then have eq: "positions ?st' = filter (\<lambda>pos. \<not> due (index_date rw) pos) (positions st)"
        by (simp add: day_result_positions)
      have "length (positions ?st') \<le> length (positions st)"
        unfolding eq by (rule length_filter_le)
      then have "length (positions ?st') \<le> 1" using Cons.prems(3) by linarith
      moreover have "\<forall>pos \<in> set (positions ?st'). list_all (date_le (expiration_date pos)) ?rolls"
        using Cons.prems(2) False by (simp add: eq)
      ultimately show ?thesis by blast
    qed
    then have "length (positions (fold (day_result md) (take m rws) ?st')) \<le> 1"
      using Cons.IH [OF sp, of ?st' m] by blast
    then show ?thesis using Suc by simp
  qed
qed

text \<open>
  C1, amended. When every date on which a call is sold lies 30 calendar days or more
  after each earlier such date, at most one obligation is open after the resolution and
  roll steps of every day (after any number n of days).
\<close>

theorem one_open_obligation_when_rolls_spaced:
  assumes "spaced_30_days (roll_dates rws)"
  shows "\<exists>st. state_after n rws = Inr st \<and> length (positions st) \<le> 1"
proof -
  have "length (positions (fold (day_result (monthly_dates (map index_date rws))) (take n rws)
          initial_state)) \<le> 1"
    using assms by (intro fold_day_result_one_position) (simp_all add: roll_dates_def initial_state_def)
  then show ?thesis by (simp add: state_after_def run_days_fold)
qed

theorem one_open_obligation_when_rolls_spaced_witness:
  "spaced_30_days
     (roll_dates [\<lparr>index_date = \<lparr>year = 2021, month = 3, day = 1\<rparr>, Price = 100, Volatility = 0.2\<rparr>,
                  \<lparr>index_date = \<lparr>year = 2021, month = 4, day = 1\<rparr>, Price = 100, Volatility = 0.2\<rparr>]) \<and>
   (\<exists>st. state_after 2
            [\<lparr>index_date = \<lparr>year = 2021, month = 3, day = 1\<rparr>, Price = 100, Volatility = 0.2\<rparr>,
             \<lparr>index_date = \<lparr>year = 2021, month = 4, day = 1\<rparr>, Price = 100, Volatility = 0.2\<rparr>]
          = Inr st \<and> length (positions st) \<le> 1)"
proof -
  have sp: "spaced_30_days
     (roll_dates [\<lparr>index_date = \<lparr>year = 2021, month = 3, day = 1\<rparr>, Price = 100, Volatility = 0.2\<rparr>,
                  \<lparr>index_date = \<lparr>year = 2021, month = 4, day = 1\<rparr>, Price = 100, Volatility = 0.2\<rparr>])"
    by (simp add: roll_dates_def monthly_dates_mar_apr_2021 add30_mar1 date_le_def)
  from sp one_open_obligation_when_rolls_spaced [OF sp, of 2] show ?thesis by simp
qed

subsection \<open>The pricer at the call site\<close>

text \<open>
  At the call site the strike is 1.05 times the price, the rate 0.01 and the time to
  expiry 30/252, so for a positive price \<open>ln (S / K) + (r + sigma\<^sup>2 / 2) * T\<close> is negative when
  sigma is 0: numpy's division by the zero \<open>sigma * sqrt T\<close> gives -inf for d1 and d2,
  the distribution function is 0 there, and the premium is 0.
\<close>

lemma ln_ratio_negative: "ln (20 / 21 :: real) + 1 / 840 < 0"
proof -
  have "ln (1 + (- 1 / 21) :: real) \<le> - 1 / 21"
    by (rule ln_add_one_self_le_self2) simp
  then show ?thesis by simp
qed

lemma call_premium_zero_volatility:
  assumes "0 < Price rw" and "Volatility rw = 0"
  shows "call_premium rw = Fin 0"
proof -
  have r: "Price rw / (Price rw * 1.05) = 20 / 21" using assms(1) by simp
  have neg: "ln (20 / 21 :: real) + 1 / 840 < 0" by (rule ln_ratio_negative)
  then have ne: "ln (20 / 21 :: real) + 1 / 840 \<noteq> 0" and nlt: "\<not> 0 < ln (20 / 21 :: real) + 1 / 840"
    by simp_all
  show ?thesis
    using assms r ne nlt
    by (simp add: call_premium_def black_scholes_call_def risk_free_rate_def np_sub_def Let_def
        shares_per_contract_def)
qed

lemma call_premium_finite:
  assumes "0 < Price rw"
  shows "\<exists>x. call_premium rw = Fin x"
proof (cases "Volatility rw = 0")
  case True
  then show ?thesis using call_premium_zero_volatility [OF assms] by simp
next
  case False
  have r: "Price rw / (Price rw * 1.05) = 20 / 21" using assms by simp
  show ?thesis
    using assms r False
    by (simp add: call_premium_def black_scholes_call_def risk_free_rate_def np_sub_def Let_def
        shares_per_contract_def)
qed

text \<open>
  C3 as stated fails. A row with volatility 0 on a date of \<open>monthly_dates\<close> reaches
  the pricer; nothing is raised, the call is written and the loop ends normally with the
  premium 0 added to cash.
\<close>

theorem zero_volatility_counterexample:
  "simulate [\<lparr>index_date = \<lparr>year = 2021, month = 2, day = 1\<rparr>, Price = 100, Volatility = 0\<rparr>]
   = Inr \<lparr>cash = Fin (- 10000), shares = 100, portfolio_value = [Fin 0],
          dates = [\<lparr>year = 2021, month = 2, day = 1\<rparr>],
          positions = [\<lparr>expiration_date = \<lparr>year = 2021, month = 3, day = 3\<rparr>, strike_K = 105\<rparr>]\<rparr>"
proof -
  have md: "monthly_dates [\<lparr>year = 2021, month = 2, day = 1\<rparr>] = [\<lparr>year = 2021, month = 2, day = 1\<rparr>]"
    by (simp add: monthly_dates_def month_index_def month_start_def upto.simps)
  have cp: "call_premium \<lparr>index_date = \<lparr>year = 2021, month = 2, day = 1\<rparr>, Price = 100, Volatility = 0\<rparr> = Fin 0"
    by (rule call_premium_zero_volatility) simp_all
  show ?thesis
    by (simp add: simulate_def run_days_fold day_result_def md cp add30_feb1 initial_state_def
        sell_call_option_def buy_shares_def resolve_expirations_def update_portfolio_value_def
        shares_per_contract_def np_sub_def Let_def)
qed

text \<open>
  C3, amended. The call site has no guard: for every volatility (zero and negative
  included) the step of the day raises nothing; on a date of \<open>monthly_dates\<close> the
  obligation is written and \<open>shares_per_contract\<close> times the value the pricer returns
  is added to cash. For a positive price that value is finite, and it is 0 when the
  volatility is 0. The time to expiry at the call site is the constant 30/252.
\<close>

theorem sell_call_without_volatility_guard:
  "\<exists>st2. check_option_expiration rw (update_portfolio_value rw st) = Inr st2 \<and>
     day_step md rw st = Inr (sell_call_option md rw st2) \<and>
     (index_date rw \<in> set md \<longrightarrow>
        cash (sell_call_option md rw st2) = np_add (cash (buy_shares rw st2)) (call_premium rw) \<and>
        positions (sell_call_option md rw st2) =
          positions st2 @ [\<lparr>expiration_date = add_days 30 (index_date rw),
                            strike_K = Price rw * 1.05\<rparr>]) \<and>
     (0 < Price rw \<longrightarrow> (\<exists>x. call_premium rw = Fin x)) \<and>
     (0 < Price rw \<and> Volatility rw = 0 \<longrightarrow> call_premium rw = Fin 0)"
proof -
  define st2 where
    "st2 = resolve_expirations (index_date rw) (Price rw) (update_portfolio_value rw st)"
  have a: "check_option_expiration rw (update_portfolio_value rw st) = Inr st2"
    by (simp add: check_option_expiration_resolves st2_def)
  have b: "day_step md rw st = Inr (sell_call_option md rw st2)"
    by (simp add: day_step_def a)
  have c: "index_date rw \<in> set md \<longrightarrow>
        cash (sell_call_option md rw st2) = np_add (cash (buy_shares rw st2)) (call_premium rw) \<and>
        positions (sell_call_option md rw st2) =
          positions st2 @ [\<lparr>expiration_date = add_days 30 (index_date rw),
                            strike_K = Price rw * 1.05\<rparr>]"
    by (simp add: sell_call_option_def buy_shares_def Let_def)
  have d: "0 < Price rw \<longrightarrow> (\<exists>x. call_premium rw = Fin x)"
    using call_premium_finite by blast
  have e: "0 < Price rw \<and> Volatility rw = 0 \<longrightarrow> call_premium rw = Fin 0"
    using call_premium_zero_volatility by blast
  from a b c d e show ?thesis by blast
qed

theorem sell_call_without_volatility_guard_witness:
  "\<exists>st2. check_option_expiration
            \<lparr>index_date = \<lparr>year = 2021, month = 2, day = 1\<rparr>, Price = 100, Volatility = 0\<rparr>
            (update_portfolio_value
              \<lparr>index_date = \<lparr>year = 2021, month = 2, day = 1\<rparr>, Price = 100, Volatility = 0\<rparr>
              initial_state) = Inr st2 \<and>
     day_step [\<lparr>year = 2021, month = 2, day = 1\<rparr>]
       \<lparr>index_date = \<lparr>year = 2021, month = 2, day = 1\<rparr>, Price = 100, Volatility = 0\<rparr> initial_state
       = Inr (sell_call_option [\<lparr>year = 2021, month = 2, day = 1\<rparr>]
               \<lparr>index_date = \<lparr>year = 2021, month = 2, day = 1\<rparr>, Price = 100, Volatility = 0\<rparr> st2) \<and>
     cash (sell_call_option [\<lparr>year = 2021, month = 2, day = 1\<rparr>]
             \<lparr>index_date = \<lparr>year = 2021, month = 2, day = 1\<rparr>, Price = 100, Volatility = 0\<rparr> st2)
       = np_add (cash (buy_shares
             \<lparr>index_date = \<lparr>year = 2021, month = 2, day = 1\<rparr>, Price = 100, Volatility = 0\<rparr> st2))
           (Fin 0) \<and>
     call_premium \<lparr>index_date = \<lparr>year = 2021, month = 2, day = 1\<rparr>, Price = 100, Volatility = 0\<rparr>
       = Fin 0"
  using sell_call_without_volatility_guard
    [of "\<lparr>index_date = \<lparr>year = 2021, month = 2, day = 1\<rparr>, Price = 100, Volatility = 0\<rparr>"
        initial_state "[\<lparr>year = 2021, month = 2, day = 1\<rparr>]"]
  by auto

subsection \<open>The annualized return\<close>

text \<open>
  C4 as stated fails. With a single simulated day the first and the last date coincide,
  \<open>years\<close> is 0 and the script ends with ZeroDivisionError at line 157.
\<close>

theorem zero_period_raises_counterexample:
  "run_script [\<lparr>index_date = \<lparr>year = 2021, month = 2, day = 1\<rparr>, Price = 100, Volatility = 0.2\<rparr>]
   = Inl ZeroDivisionError"
  by (simp add: run_script_def simulate_def run_days_fold covered_call_metrics_def
      day_result_portfolio_value day_result_dates initial_state_def covered_call_return_def
      elapsed_days_def annualized_return_def)

text \<open>
  C4, amended. When the elapsed period is zero (\<open>days = 0\<close>, the first and the last
  sample date coincide) the annualized return raises ZeroDivisionError; for every other
  period it returns a value. The total return of line 147 is a numpy value and raises
  nothing.
\<close>

theorem annualized_return_raises_on_zero_period:
  "(days = 0 \<longrightarrow> annualized_return total_return days = Inl ZeroDivisionError) \<and>
   (days \<noteq> 0 \<longrightarrow> (\<exists>v. annualized_return total_return days = Inr v)) \<and>
   (portfolio_value st \<noteq> [] \<and> dates st \<noteq> [] \<and> last (dates st) = hd (dates st) \<longrightarrow>
      covered_call_metrics st = Inl ZeroDivisionError)"
  by (simp add: annualized_return_def covered_call_metrics_def covered_call_return_def
      elapsed_days_def)

theorem annualized_return_raises_on_zero_period_witness:
  "annualized_return NaN 0 = Inl ZeroDivisionError \<and>
   (\<exists>v. annualized_return (Fin (1 / 10)) 365 = Inr v) \<and>
   covered_call_metrics
     \<lparr>cash = Fin (- 10000), shares = 100, portfolio_value = [Fin 0],
      dates = [\<lparr>year = 2021, month = 2, day = 1\<rparr>],
      positions = [\<lparr>expiration_date = \<lparr>year = 2021, month = 3, day = 3\<rparr>, strike_K = 105\<rparr>]\<rparr>
     = Inl ZeroDivisionError"
  using annualized_return_raises_on_zero_period [of 0 NaN
      "\<lparr>cash = Fin (- 10000), shares = 100, portfolio_value = [Fin 0],
        dates = [\<lparr>year = 2021, month = 2, day = 1\<rparr>],
        positions = [\<lparr>expiration_date = \<lparr>year = 2021, month = 3, day = 3\<rparr>, strike_K = 105\<rparr>]\<rparr>"]
    annualized_return_raises_on_zero_period [of 365 "Fin (1 / 10)"]
  by simp

subsection \<open>The volatility warm-up\<close>

lemma length_returns_column [simp]: "length (returns_column ps) = length ps"
  by (simp add: returns_column_def shift1_def)

lemma returns_column_first: "ps \<noteq> [] \<Longrightarrow> returns_column ps ! 0 = NaN"
  by (cases ps) (simp_all add: returns_column_def shift1_def)

lemma returns_column_nth:
  assumes "0 < i" and "i < length ps" and "0 < ps ! i" and "0 < ps ! (i - 1)"
  shows "returns_column ps ! i = Fin (ln (ps ! i / ps ! (i - 1)))"
proof -
  have "shift1 (map Fin ps) ! i = Fin (ps ! (i - 1))"
    using assms(1,2) by (simp add: shift1_def nth_Cons')
  then show ?thesis
    using assms by (simp add: returns_column_def shift1_def)
qed

lemma length_map_filter_le: "length (List.map_filter f ys) \<le> length ys"
  by (simp add: List.map_filter_def)

lemma length_map_filter_finite:
  "\<forall>y \<in> set ys. \<exists>x. y = Fin x \<Longrightarrow> length (List.map_filter finite_value ys) = length ys"
  by (induction ys) (auto simp: List.map_filter_simps)

lemma rolling_std_nth:
  "i < length xs \<Longrightarrow>
   rolling_std w xs ! i =
     (let vals = List.map_filter finite_value (window_at w xs i)
      in if length vals = w then sample_std vals else NaN)"
  by (simp add: rolling_std_def)

lemma rolling_std_warm_up:
  assumes "i < w" and "i < length xs" and "xs ! 0 = NaN"
  shows "rolling_std w xs ! i = NaN"
proof -
  obtain x xs' where xs: "xs = x # xs'" using assms(2) by (cases xs) auto
  with assms(3) have x: "x = NaN" by simp
  have "window_at w xs i = NaN # take i xs'"
    using assms(1) by (simp add: window_at_def xs x)
  then have "List.map_filter finite_value (window_at w xs i)
               = List.map_filter finite_value (take i xs')"
    by (simp add: List.map_filter_simps)
  moreover have "length (List.map_filter finite_value (take i xs')) \<le> i"
    using length_map_filter_le [of finite_value "take i xs'"] by simp
  ultimately have "length (List.map_filter finite_value (window_at w xs i)) \<noteq> w"
    using assms(1) by simp
  then show ?thesis using assms(2) by (simp add: rolling_std_nth Let_def)
qed

lemma rolling_std_full_window:
  assumes "w \<le> i" and "i < length xs"
    and "\<forall>j. 0 < j \<and> j < length xs \<longrightarrow> (\<exists>x. xs ! j = Fin x)"
  shows "\<exists>vals. rolling_std w xs ! i = sample_std vals \<and> length vals = w"
proof -
  have len: "length (window_at w xs i) = w"
    using assms(1,2) by (simp add: window_at_def)
  have "\<forall>y \<in> set (window_at w xs i). \<exists>x. y = Fin x"
  proof
    fix y assume "y \<in> set (window_at w xs i)"
    then obtain k where k: "k < w" "y = window_at w xs i ! k"
      using len by (metis in_set_conv_nth)
    have "window_at w xs i ! k = xs ! (Suc i - w + k)"
      using k(1) assms(1,2) by (simp add: window_at_def)
    moreover have "0 < Suc i - w + k" "Suc i - w + k < length xs"
      using k(1) assms(1,2) by simp_all
    ultimately show "\<exists>x. y = Fin x" using assms(3) k(2) by simp
  qed
  then have "length (List.map_filter finite_value (window_at w xs i)) = w"
    using length_map_filter_finite len by metis
  then show ?thesis using assms(2) by (auto simp: rolling_std_nth Let_def)
qed

lemma sample_std_finite:
  assumes "2 \<le> length vals"
  shows "\<exists>v. sample_std vals = Fin v"
proof -
  let ?m = "sum_list vals / real (length vals)"
  have "0 \<le> sum_list (map (\<lambda>x. (x - ?m)\<^sup>2) vals)"
    by (rule sum_list_nonneg) auto
  moreover have "0 < real (length vals) - 1" using assms by simp
  ultimately show ?thesis
    by (simp add: sample_std_def Let_def)
qed

lemma map_filter_upt_from:
  assumes "\<forall>i. i < k \<and> i < n \<longrightarrow> f i = None" and "\<forall>i. k \<le> i \<and> i < n \<longrightarrow> f i \<noteq> None"
  shows "List.map_filter f [0..<n] = map (\<lambda>i. the (f i)) [k..<n]"
  using assms
proof (induction n)
  case 0
  then show ?case by (simp add: List.map_filter_simps)
next
  case (Suc n)
  have IH: "List.map_filter f [0..<n] = map (\<lambda>i. the (f i)) [k..<n]"
    using Suc by simp
  have app: "List.map_filter f [0..<Suc n] = List.map_filter f [0..<n] @ List.map_filter f [n]"
    by (simp add: List.map_filter_def)
  show ?case
  proof (cases "k \<le> n")
    case True
    then obtain y where "f n = Some y" using Suc.prems by auto
    then show ?thesis using True IH app by (simp add: List.map_filter_simps)
  next
    case False
    then have "f n = None" using Suc.prems(1) by simp
    then show ?thesis using False IH app by (simp add: List.map_filter_simps)
  qed
qed

lemma map_nth_upt_drop: "map (\<lambda>i. xs ! i) [k..<length xs] = drop k xs"
proof -
  have "drop k xs = drop k (map (\<lambda>i. xs ! i) [0..<length xs])" by (simp add: map_nth)
  also have "\<dots> = map (\<lambda>i. xs ! i) [k..<length xs]" by (simp add: drop_map)
  finally show ?thesis by simp
qed

lemma volatility_column_warm_up:
  assumes "i < window_size" and "i < length ps"
  shows "volatility_column ps ! i = NaN"
proof -
  from assms(2) have "ps \<noteq> []" by auto
  then have "returns_column ps ! 0 = NaN" by (rule returns_column_first)
  then have "rolling_std window_size (returns_column ps) ! i = NaN"
    using assms by (intro rolling_std_warm_up) simp_all
  then show ?thesis using assms(2) by (simp add: volatility_column_def rolling_std_def)
qed

lemma volatility_column_finite:
  assumes "window_size \<le> i" and "i < length ps" and "\<forall>p \<in> set ps. 0 < p"
  shows "\<exists>v. volatility_column ps ! i = Fin v"
proof -
  have "\<forall>j. 0 < j \<and> j < length (returns_column ps) \<longrightarrow> (\<exists>x. returns_column ps ! j = Fin x)"
  proof (intro allI impI)
    fix j assume j: "0 < j \<and> j < length (returns_column ps)"
    then have "j < length ps" "j - 1 < length ps" by auto
    then have "0 < ps ! j" "0 < ps ! (j - 1)" using assms(3) nth_mem by blast+
    then show "\<exists>x. returns_column ps ! j = Fin x"
      using j returns_column_nth [of j ps] by simp
  qed
  then obtain vals where vals: "rolling_std window_size (returns_column ps) ! i = sample_std vals"
      "length vals = window_size"
    using rolling_std_full_window [of window_size i "returns_column ps"] assms(1,2) by auto
  then obtain v where "sample_std vals = Fin v"
    using sample_std_finite [of vals] by (auto simp: window_size_def)
  then show ?thesis
    using vals(1) assms(2) by (simp add: volatility_column_def rolling_std_def)
qed

lemma returns_column_finite:
  assumes "0 < i" and "i < length ps" and "\<forall>p \<in> set ps. 0 < p"
  shows "\<exists>x. returns_column ps ! i = Fin x"
proof -
  have "i - 1 < length ps" using assms(2) by simp
  then have "0 < ps ! i" "0 < ps ! (i - 1)" using assms(2,3) nth_mem by blast+
  then show ?thesis using returns_column_nth [OF assms(1,2)] by simp
qed

lemma dropna_row_NaN_volatility [simp]: "dropna_row dp ret NaN = None"
  by (cases ret) simp_all

lemma data_df_short:
  assumes "length series < window_size + 1"
  shows "data_df series = []"
proof -
  let ?f = "\<lambda>i. dropna_row (series ! i) (returns_column (map snd series) ! i)
                   (volatility_column (map snd series) ! i)"
  have "\<forall>i. i < length series \<and> i < length series \<longrightarrow> ?f i = None"
    using assms volatility_column_warm_up [of _ "map snd series"] by simp
  then have "List.map_filter ?f [0..<length series]
               = map (\<lambda>i. the (?f i)) [length series..<length series]"
    by (intro map_filter_upt_from) simp_all
  then show ?thesis by (simp add: data_df_def)
qed

lemma data_df_rows:
  assumes "\<forall>p \<in> set (map snd series). 0 < p"
  shows "map index_date (data_df series) = drop window_size (map fst series) \<and>
         map Price (data_df series) = drop window_size (map snd series)"
proof -
  let ?ps = "map snd series"
  let ?n = "length series"
  let ?f = "\<lambda>i. dropna_row (series ! i) (returns_column ?ps ! i) (volatility_column ?ps ! i)"
  have none: "\<forall>i. i < window_size \<and> i < ?n \<longrightarrow> ?f i = None"
    using volatility_column_warm_up [of _ ?ps] by simp
  have some: "\<exists>v. ?f i = Some \<lparr>index_date = fst (series ! i), Price = snd (series ! i),
                                 Volatility = v\<rparr>"
    if wi: "window_size \<le> i" and il: "i < ?n" for i
  proof -
    have "0 < i" using wi by (simp add: window_size_def)
    then obtain x where x: "returns_column ?ps ! i = Fin x"
      using returns_column_finite [of i ?ps] il assms by auto
    obtain v where v: "volatility_column ?ps ! i = Fin v"
      using volatility_column_finite [of i ?ps] wi il assms by auto
    show ?thesis by (simp add: x v)
  qed
  then have ne: "\<forall>i. window_size \<le> i \<and> i < ?n \<longrightarrow> ?f i \<noteq> None" by fastforce
  have df: "data_df series = map (\<lambda>i. the (?f i)) [window_size..<?n]"
    unfolding data_df_def using none ne by (rule map_filter_upt_from)
  have "map index_date (data_df series) = map (\<lambda>i. map fst series ! i) [window_size..<?n]"
    unfolding df using some by fastforce
  moreover have "map Price (data_df series) = map (\<lambda>i. map snd series ! i) [window_size..<?n]"
    unfolding df using some by fastforce
  ultimately show ?thesis
    using map_nth_upt_drop [of "map fst series" window_size]
      map_nth_upt_drop [of "map snd series" window_size] by simp
qed

text \<open>
  C10. With fewer than W + 1 price points (W = \<open>window_size\<close> = 30) every rolling
  volatility is nan, \<open>dropna\<close> leaves no row, and the loop ends normally with an empty
  series of portfolio values. With positive prices exactly the first W dates are dropped
  and the loop records one value for each remaining date.
\<close>

theorem warm_up_window_excluded:
  "(length series < window_size + 1 \<longrightarrow>
      volatility_column (map snd series) = replicate (length series) NaN \<and>
      data_df series = [] \<and>
      (\<exists>st. simulate (data_df series) = Inr st \<and> portfolio_value st = [] \<and> dates st = [])) \<and>
   (list_all (\<lambda>dp. 0 < snd dp) series \<longrightarrow>
      map index_date (data_df series) = drop window_size (map fst series) \<and>
      map Price (data_df series) = drop window_size (map snd series) \<and>
      (\<exists>st. simulate (data_df series) = Inr st \<and>
         dates st = drop window_size (map fst series) \<and>
         length (portfolio_value st) = length series - window_size))"
proof (intro conjI impI)
  assume short: "length series < window_size + 1"
  have "length (volatility_column (map snd series)) = length series"
    by (simp add: volatility_column_def rolling_std_def)
  moreover have "\<forall>i < length series. volatility_column (map snd series) ! i = NaN"
    using short volatility_column_warm_up [of _ "map snd series"] by simp
  ultimately show "volatility_column (map snd series) = replicate (length series) NaN"
    by (simp add: list_eq_iff_nth_eq)
  show df: "data_df series = []" using short by (rule data_df_short)
  show "\<exists>st. simulate (data_df series) = Inr st \<and> portfolio_value st = [] \<and> dates st = []"
    by (simp add: df simulate_def initial_state_def)
next
  assume "list_all (\<lambda>dp. 0 < snd dp) series"
  then have pos: "\<forall>p \<in> set (map snd series). 0 < p" by (auto simp: list_all_iff)
  from data_df_rows [OF pos]
  show d: "map index_date (data_df series) = drop window_size (map fst series)"
    and "map Price (data_df series) = drop window_size (map snd series)" by simp_all
  let ?md = "monthly_dates (map index_date (data_df series))"
  let ?st = "fold (day_result ?md) (data_df series) initial_state"
  have "dates ?st = drop window_size (map fst series)"
    by (simp add: fold_day_result_dates initial_state_def d)
  moreover have "length (portfolio_value ?st) = length (data_df series)"
    using fold_day_result_portfolio_value [of ?md "data_df series" initial_state]
    by (auto simp: initial_state_def)
  moreover have "length (data_df series) = length series - window_size"
    using arg_cong [OF d, of length] by simp
  ultimately show "\<exists>st. simulate (data_df series) = Inr st \<and>
         dates st = drop window_size (map fst series) \<and>
         length (portfolio_value st) = length series - window_size"
    by (simp add: simulate_def run_days_fold)
qed

theorem warm_up_window_excluded_witness:
  "(volatility_column (map snd [(\<lparr>year = 2021, month = 1, day = 4\<rparr>, 100::real), (\<lparr>year = 2021, month = 1, day = 5\<rparr>, 101)])
      = replicate (length [(\<lparr>year = 2021, month = 1, day = 4\<rparr>, 100::real), (\<lparr>year = 2021, month = 1, day = 5\<rparr>, 101)]) NaN \<and>
    data_df [(\<lparr>year = 2021, month = 1, day = 4\<rparr>, 100::real), (\<lparr>year = 2021, month = 1, day = 5\<rparr>, 101)] = [] \<and>
    (\<exists>st. simulate (data_df [(\<lparr>year = 2021, month = 1, day = 4\<rparr>, 100::real), (\<lparr>year = 2021, month = 1, day = 5\<rparr>, 101)]) = Inr st \<and>
       portfolio_value st = [] \<and> dates st = [])) \<and>
   (map index_date (data_df (map (\<lambda>n. (add_days n \<lparr>year = 2021, month = 1, day = 1\<rparr>, 100 + real n)) [0..<32]))
      = drop window_size (map fst (map (\<lambda>n. (add_days n \<lparr>year = 2021, month = 1, day = 1\<rparr>, 100 + real n)) [0..<32])) \<and>
    map Price (data_df (map (\<lambda>n. (add_days n \<lparr>year = 2021, month = 1, day = 1\<rparr>, 100 + real n)) [0..<32]))
      = drop window_size (map snd (map (\<lambda>n. (add_days n \<lparr>year = 2021, month = 1, day = 1\<rparr>, 100 + real n)) [0..<32])) \<and>
    (\<exists>st. simulate (data_df (map (\<lambda>n. (add_days n \<lparr>year = 2021, month = 1, day = 1\<rparr>, 100 + real n)) [0..<32])) = Inr st \<and>
       dates st = drop window_size (map fst (map (\<lambda>n. (add_days n \<lparr>year = 2021, month = 1, day = 1\<rparr>, 100 + real n)) [0..<32])) \<and>
       length (portfolio_value st) = length (map (\<lambda>n. (add_days n \<lparr>year = 2021, month = 1, day = 1\<rparr>, 100 + real n)) [0..<32]) - window_size))"
proof -
  have a: "length [(\<lparr>year = 2021, month = 1, day = 4\<rparr>, 100::real), (\<lparr>year = 2021, month = 1, day = 5\<rparr>, 101)] < window_size + 1"
    by (simp add: window_size_def)
  have b: "list_all (\<lambda>dp. 0 < snd dp) (map (\<lambda>n. (add_days n \<lparr>year = 2021, month = 1, day = 1\<rparr>, 100 + real n)) [0..<32])"
    by (simp add: list_all_iff)
  from warm_up_window_excluded [of "[(\<lparr>year = 2021, month = 1, day = 4\<rparr>, 100::real), (\<lparr>year = 2021, month = 1, day = 5\<rparr>, 101)]", THEN conjunct1, THEN mp, OF a]
    warm_up_window_excluded [of "map (\<lambda>n. (add_days n \<lparr>year = 2021, month = 1, day = 1\<rparr>, 100 + real n)) [0..<32]", THEN conjunct2, THEN mp, OF b]
  show ?thesis by (rule conjI)
qed

subsection \<open>A volatility of zero from the estimator\<close>

text \<open>
  A price series that stays at one positive price gives log returns of 0 and a rolling
  standard deviation of 0, which is not nan: every row that \<open>dropna\<close> keeps carries the
  volatility 0 into the loop.
\<close>

lemma map_filter_all_zero:
  "\<forall>y \<in> set ys. y = Fin 0 \<Longrightarrow> List.map_filter finite_value ys = replicate (length ys) 0"
  by (induction ys) (auto simp: List.map_filter_simps)

lemma sample_std_zeros: "2 \<le> n \<Longrightarrow> sample_std (replicate n 0) = Fin 0"
proof -
  assume n: "2 \<le> n"
  have "sum_list (replicate n (0::real)) = 0" by (simp add: sum_list_replicate)
  moreover have "map (\<lambda>x::real. x\<^sup>2) (replicate n 0) = replicate n 0" by simp
  moreover have "real n - 1 \<noteq> 0" using n by simp
  ultimately show ?thesis by (simp add: sample_std_def Let_def sum_list_replicate)
qed

lemma flat_prices_zero_volatility:
  assumes flat: "\<forall>dp \<in> set series. snd dp = c" and c: "0 < c"
  shows "\<forall>rw \<in> set (data_df series). Volatility rw = 0"
proof -
  let ?ps = "map snd series"
  let ?n = "length series"
  let ?f = "\<lambda>i. dropna_row (series ! i) (returns_column ?ps ! i) (volatility_column ?ps ! i)"
  have ps: "?ps ! j = c" if "j < ?n" for j using flat that by simp
  have ret: "returns_column ?ps ! j = Fin 0" if j: "0 < j" "j < ?n" for j
  proof -
    have "j - 1 < ?n" using j by simp
    then have "?ps ! j = c" "?ps ! (j - 1) = c" using ps j by blast+
    then show ?thesis using returns_column_nth [of j ?ps] j c by simp
  qed
  have none: "\<forall>i. i < window_size \<and> i < ?n \<longrightarrow> ?f i = None"
    using volatility_column_warm_up [of _ ?ps] by simp
  have some: "?f i = Some \<lparr>index_date = fst (series ! i), Price = snd (series ! i), Volatility = 0\<rparr>"
    if wi: "window_size \<le> i" and il: "i < ?n" for i
  proof -
    let ?w = "window_at window_size (returns_column ?ps) i"
    have len: "length ?w = window_size" using wi il by (simp add: window_at_def)
    have "\<forall>y \<in> set ?w. y = Fin 0"
    proof
      fix y assume "y \<in> set ?w"
      then obtain k where k: "k < window_size" "y = ?w ! k" using len by (metis in_set_conv_nth)
      have "?w ! k = returns_column ?ps ! (Suc i - window_size + k)"
        using k(1) wi il by (simp add: window_at_def)
      moreover have "0 < Suc i - window_size + k" "Suc i - window_size + k < ?n"
        using k(1) wi il by simp_all
      ultimately show "y = Fin 0" using ret k(2) by simp
    qed
    then have "List.map_filter finite_value ?w = replicate window_size 0"
      using map_filter_all_zero [of ?w] len by simp
    then have "rolling_std window_size (returns_column ?ps) ! i = Fin 0"
      using il sample_std_zeros [of window_size]
      by (simp add: rolling_std_nth Let_def window_size_def)
    then have v: "volatility_column ?ps ! i = Fin 0"
      using il by (simp add: volatility_column_def rolling_std_def)
    have "0 < i" using wi by (simp add: window_size_def)
    then have "returns_column ?ps ! i = Fin 0" using ret il by simp
    then show ?thesis by (simp add: v)
  qed
  then have ne: "\<forall>i. window_size \<le> i \<and> i < ?n \<longrightarrow> ?f i \<noteq> None" by simp
  have df: "data_df series = map (\<lambda>i. the (?f i)) [window_size..<?n]"
    unfolding data_df_def using none ne by (rule map_filter_upt_from)
  show ?thesis unfolding df using some by auto
qed

end
